theory Spec2Isabelle
  imports Main
begin

section \<open>Instruction emission of the template pipeline (instruction.ts)\<close>

subsection \<open>The output AST and the instruction table\<close>

text \<open>
  Modelled from the spec: the instruction references \<open>Identifiers.*\<close> of
  \<open>render3/r3_identifiers\<close> are imported by instruction.ts and are not part of the
  sources at hand. The spec describes an instruction reference as an external, stable
  symbol with identity equality, so each reference that instruction.ts names is one
  constructor.
\<close>

datatype Identifiers =
    I_element | I_elementStart | I_elementEnd
  | I_elementContainerStart | I_elementContainer | I_elementContainerEnd
  | I_templateCreate | I_listener | I_advance | I_reference | I_nextContext
  | I_getCurrentView | I_restoreView | I_resetView | I_text | I_property
  | I_textInterpolate | I_textInterpolate1 | I_textInterpolate2 | I_textInterpolate3
  | I_textInterpolate4 | I_textInterpolate5 | I_textInterpolate6 | I_textInterpolate7
  | I_textInterpolate8 | I_textInterpolateV

text \<open>
  Modelled from the spec: the expression and statement nodes of \<open>output/output_ast\<close>
  and the statement operation of \<open>../ir\<close> are external builders that instruction.ts only
  calls. A node is the free term built by the builder that was called: \<open>o.literal\<close>,
  \<open>o.literalArr\<close>, \<open>o.importExpr\<close>, \<open>callFn\<close>, \<open>toStmt\<close> and
  \<open>ir.createStatementOp\<close>. \<open>ReadVarExpr\<close> stands for the expressions that a caller
  hands in. The values given to \<open>o.literal\<close> here are numbers (slots, indices and
  counts, modelled as integers), strings, \<open>null\<close>, and \<open>undefined\<close> for an array
  read out of range.
\<close>

datatype literal_value =
  NumberValue int | StringValue string | NullValue | UndefinedValue

datatype Expression =
    LiteralExpr literal_value
  | LiteralArrayExpr "Expression list"
  | ExternalExpr Identifiers
  | InvokeFunctionExpr Expression "Expression list"
  | ReadVarExpr string

datatype Statement = ExpressionStatement Expression

datatype Op = StatementOp Statement

definition literal :: "literal_value \<Rightarrow> Expression" where
  "literal v = LiteralExpr v"

definition literalArr :: "Expression list \<Rightarrow> Expression" where
  "literalArr vs = LiteralArrayExpr vs"

definition importExpr :: "Identifiers \<Rightarrow> Expression" where
  "importExpr r = ExternalExpr r"

definition callFn :: "Expression \<Rightarrow> Expression list \<Rightarrow> Expression" where
  "callFn f args = InvokeFunctionExpr f args"

definition toStmt :: "Expression \<Rightarrow> Statement" where
  "toStmt e = ExpressionStatement e"

definition createStatementOp :: "Statement \<Rightarrow> Op" where
  "createStatementOp s = StatementOp s"

text \<open>\<open>args.push(x, y, ...)\<close> appends at the end of the array.\<close>

definition push :: "'a list \<Rightarrow> 'a list \<Rightarrow> 'a list" where
  "push args xs = args @ xs"

text \<open>A JavaScript array read: \<open>None\<close> is \<open>undefined\<close>, the value out of range.\<close>

definition js_index :: "'a list \<Rightarrow> nat \<Rightarrow> 'a option" where
  "js_index xs i = (if i < length xs then Some (xs ! i) else None)"

definition number_or_null :: "int option \<Rightarrow> literal_value" where
  "number_or_null n = (case n of None \<Rightarrow> NullValue | Some k \<Rightarrow> NumberValue k)"

definition string_or_undefined :: "string option \<Rightarrow> literal_value" where
  "string_or_undefined s = (case s of None \<Rightarrow> UndefinedValue | Some t \<Rightarrow> StringValue t)"

text \<open>Readers of an emitted operation, used to state properties of its call.\<close>

fun op_expr :: "Op \<Rightarrow> Expression" where
  "op_expr (StatementOp (ExpressionStatement e)) = e"

fun call_args :: "Expression \<Rightarrow> Expression list" where
  "call_args (InvokeFunctionExpr f args) = args"
| "call_args (LiteralExpr v) = []"
| "call_args (LiteralArrayExpr vs) = []"
| "call_args (ExternalExpr r) = []"
| "call_args (ReadVarExpr x) = []"

subsection \<open>The instruction helpers\<close>

definition call :: "Identifiers \<Rightarrow> Expression list \<Rightarrow> Op" where
  "call instruction args = createStatementOp (toStmt (callFn (importExpr instruction) args))"

definition elementOrContainerBase ::
  "Identifiers \<Rightarrow> int \<Rightarrow> string option \<Rightarrow> int option \<Rightarrow> int option \<Rightarrow> Op" where
  "elementOrContainerBase instruction slot tag constIndex localRefIndex =
     (let args = [literal (NumberValue slot)];
          args = (case tag of
                    Some t \<Rightarrow> push args [literal (StringValue t)]
                  | None \<Rightarrow> args);
          args = (case localRefIndex of
                    Some l \<Rightarrow>
                      push args [literal (number_or_null constIndex), literal (NumberValue l)]
                  | None \<Rightarrow>
                      (case constIndex of
                         Some c \<Rightarrow> push args [literal (NumberValue c)]
                       | None \<Rightarrow> args))
      in call instruction args)"

definition element :: "int \<Rightarrow> string \<Rightarrow> int option \<Rightarrow> int option \<Rightarrow> Op" where
  "element slot tag constIndex localRefIndex =
     elementOrContainerBase I_element slot (Some tag) constIndex localRefIndex"

definition elementStart :: "int \<Rightarrow> string \<Rightarrow> int option \<Rightarrow> int option \<Rightarrow> Op" where
  "elementStart slot tag constIndex localRefIndex =
     elementOrContainerBase I_elementStart slot (Some tag) constIndex localRefIndex"

definition elementContainerStart :: "int \<Rightarrow> int option \<Rightarrow> int option \<Rightarrow> Op" where
  "elementContainerStart slot constIndex localRefIndex =
     elementOrContainerBase I_elementContainerStart slot None constIndex localRefIndex"

definition elementContainer :: "int \<Rightarrow> int option \<Rightarrow> int option \<Rightarrow> Op" where
  "elementContainer slot constIndex localRefIndex =
     elementOrContainerBase I_elementContainer slot None constIndex localRefIndex"

definition advance :: "int \<Rightarrow> Op" where
  "advance delta = call I_advance [literal (NumberValue delta)]"

definition nextContext :: "int \<Rightarrow> Expression" where
  "nextContext steps =
     callFn (importExpr I_nextContext) (if steps = 1 then [] else [literal (NumberValue steps)])"

text \<open>The helper \<open>text\<close> of the source; \<open>text\<close> is a keyword of Isabelle.\<close>

definition text_op :: "int \<Rightarrow> string \<Rightarrow> Op" where
  "text_op slot initialValue =
     (let args = [literal (NumberValue slot)];
          args = (if initialValue \<noteq> '''' then push args [literal (StringValue initialValue)]
                  else args)
      in call I_text args)"

subsection \<open>Variadic instructions\<close>

datatype error =
    ShapeOfArgsError
  | ExpectedOddError
  | UnableToCallVariadicError

text \<open>
  The configuration of a variadic instruction, with the fields \<open>constant\<close>,
  \<open>variable\<close> and \<open>mapping\<close> of the source under the prefix \<open>cfg_\<close>
  (\<open>constant\<close> is a keyword of Isabelle). The mapping takes the length of the
  argument array and yields the logical count, an index into the constant forms, or throws.
\<close>

record VariadicInstructionConfig =
  cfg_constant :: "Identifiers list"
  cfg_variable :: "Identifiers option"
  cfg_mapping :: "nat \<Rightarrow> error + nat"

definition TEXT_INTERPOLATE_CONFIG :: VariadicInstructionConfig where
  "TEXT_INTERPOLATE_CONFIG =
     \<lparr> cfg_constant =
         [I_textInterpolate, I_textInterpolate1, I_textInterpolate2, I_textInterpolate3,
          I_textInterpolate4, I_textInterpolate5, I_textInterpolate6, I_textInterpolate7,
          I_textInterpolate8],
       cfg_variable = Some I_textInterpolateV,
       cfg_mapping = (\<lambda>n. if n mod 2 = 0 then Inl ExpectedOddError else Inr ((n - 1) div 2)) \<rparr>"

definition callVariadicInstructionExpr ::
  "VariadicInstructionConfig \<Rightarrow> Expression list \<Rightarrow> Expression list \<Rightarrow> error + Expression" where
  "callVariadicInstructionExpr config baseArgs interpolationArgs =
     (case cfg_mapping config (length interpolationArgs) of
        Inl e \<Rightarrow> Inl e
      | Inr n \<Rightarrow>
          if n < length (cfg_constant config) then
            Inr (callFn (importExpr (cfg_constant config ! n)) (baseArgs @ interpolationArgs))
          else
            (case cfg_variable config of
               Some v \<Rightarrow> Inr (callFn (importExpr v) (baseArgs @ [literalArr interpolationArgs]))
             | None \<Rightarrow> Inl UnableToCallVariadicError))"

definition callVariadicInstruction ::
  "VariadicInstructionConfig \<Rightarrow> Expression list \<Rightarrow> Expression list \<Rightarrow> error + Op" where
  "callVariadicInstruction config baseArgs interpolationArgs =
     (case callVariadicInstructionExpr config baseArgs interpolationArgs of
        Inl e \<Rightarrow> Inl e
      | Inr e \<Rightarrow> Inr (createStatementOp (toStmt e)))"

text \<open>
  The \<open>for\<close> loop of \<open>textInterpolate\<close>: it returns the final index together with the
  array, since the statement after the loop reads \<open>strings[idx]\<close>.
\<close>

function interpolate_loop ::
  "string list \<Rightarrow> Expression list \<Rightarrow> nat \<Rightarrow> Expression list \<Rightarrow> nat \<times> Expression list" where
  "interpolate_loop strings expressions idx args =
     (if idx < length expressions then
        interpolate_loop strings expressions (idx + 1)
          (push args [literal (string_or_undefined (js_index strings idx)), expressions ! idx])
      else (idx, args))"
  by pat_completeness auto
termination
  by (relation "measure (\<lambda>(strings, expressions, idx, args). length expressions - idx)") auto

declare interpolate_loop.simps [simp del]

text \<open>The array \<open>interpolationArgs\<close> that \<open>textInterpolate\<close> builds after its entry check.\<close>

definition interpolationArgs :: "string list \<Rightarrow> Expression list \<Rightarrow> Expression list" where
  "interpolationArgs strings expressions =
     (if length expressions = 1 \<and> js_index strings 0 = Some '''' \<and> js_index strings 1 = Some ''''
      then push [] [expressions ! 0]
      else
        (case interpolate_loop strings expressions 0 [] of
           (idx, args) \<Rightarrow> push args [literal (string_or_undefined (js_index strings idx))]))"

definition textInterpolate :: "string list \<Rightarrow> Expression list \<Rightarrow> error + Op" where
  "textInterpolate strings expressions =
     (if length strings < 1 \<or> length expressions \<noteq> length strings - 1 then Inl ShapeOfArgsError
      else callVariadicInstruction TEXT_INTERPOLATE_CONFIG []
             (interpolationArgs strings expressions))"

text \<open>The arguments of the call that a result carries, when there is one.\<close>

definition emitted_args :: "error + Op \<Rightarrow> Expression list option" where
  "emitted_args r = (case r of Inl e \<Rightarrow> None | Inr opn \<Rightarrow> Some (call_args (op_expr opn)))"

section \<open>Module scope resolution (scope/index.ts)\<close>

text \<open>
  Modelled from the spec: \<open>LocalModuleScopeRegistry\<close> is only re-exported by
  scope/index.ts from \<open>./src/local\<close>, and its code is not part of the sources at hand.
  The model follows the spec's data model: a module node holds its declared symbols, its
  imported modules (the edges of the graph) and its re-exported symbols. The graph is the
  list of the registered modules with their nodes. Symbols and modules are compared by
  identity.
\<close>

type_synonym symbol = string

type_synonym module_id = string

record module_node =
  node_declared :: "symbol list"
  node_imports :: "module_id list"
  node_exports :: "symbol list"

type_synonym scope_graph = "(module_id \<times> module_node) list"

text \<open>
  Modelled from the spec: the graph is populated by registering module declarations
  before any resolution; the latest registration of a module is the one that is read, and
  a module that was never registered has the empty node.
\<close>

definition empty_node :: module_node where
  "empty_node = \<lparr> node_declared = [], node_imports = [], node_exports = [] \<rparr>"

definition register_module :: "scope_graph \<Rightarrow> module_id \<Rightarrow> module_node \<Rightarrow> scope_graph" where
  "register_module g m n = (m, n) # g"

definition node_of :: "scope_graph \<Rightarrow> module_id \<Rightarrow> module_node" where
  "node_of g m = (case map_of g m of None \<Rightarrow> empty_node | Some n \<Rightarrow> n)"

text \<open>
  Modelled from the spec: symbols are added to a scope deduplicated by identity; a symbol
  already in the scope is not added again.
\<close>

fun add_symbols :: "symbol list \<Rightarrow> symbol list \<Rightarrow> symbol list" where
  "add_symbols scope [] = scope"
| "add_symbols scope (s # ss) =
     (if s \<in> set scope then add_symbols scope ss else add_symbols (scope @ [s]) ss)"

text \<open>
  Modelled from the spec: what an imported module \<open>b\<close> hands to its importer are its
  exported symbols, not merely its declared ones: the symbols of the scope of \<open>b\<close> that
  \<open>b\<close> re-exports. This is how a transitively imported symbol crosses an export
  boundary.
\<close>

definition exported_of :: "scope_graph \<Rightarrow> module_id \<Rightarrow> symbol list \<Rightarrow> symbol list" where
  "exported_of g b scope = filter (\<lambda>s. s \<in> set (node_exports (node_of g b))) scope"

text \<open>
  Modelled from the spec: the resolution of a module is its own declared symbols together
  with the exported symbols of each imported module, and the scope of an imported module
  is in turn found by resolving it. The modules whose resolution is in progress are passed
  through the traversal as explicit state: a module met again while it is in progress is
  not entered a second time and contributes its declared symbols, the set already known.
  Each nested resolution puts one more registered module in progress, which is why the
  recursion ends on every graph, with or without import cycles.
\<close>

function (domintros) resolve_in :: "scope_graph \<Rightarrow> module_id list \<Rightarrow> module_id \<Rightarrow> symbol list" where
  "resolve_in g in_progress m =
     (if m \<in> set in_progress then add_symbols [] (node_declared (node_of g m))
      else add_symbols (add_symbols [] (node_declared (node_of g m)))
             (concat (map (\<lambda>b. exported_of g b (resolve_in g (m # in_progress) b))
                        (node_imports (node_of g m)))))"
  by pat_completeness auto
termination
proof (relation "measure (\<lambda>(g, in_progress, m). card (fst ` set g - set in_progress))")
  show "wf (measure (\<lambda>(g, in_progress, m). card (fst ` set g - set in_progress)))"
    by simp
next
  fix g :: scope_graph and in_progress :: "module_id list" and m b :: module_id
  assume fresh: "m \<notin> set in_progress" and edge: "b \<in> set (node_imports (node_of g m))"
  have "m \<in> fst ` set g"
    using edge
    by (auto simp: node_of_def empty_node_def split: option.splits dest: map_of_SomeD
        intro: rev_image_eqI)
  then have "fst ` set g - set (m # in_progress) \<subset> fst ` set g - set in_progress"
    using fresh by auto
  then have "card (fst ` set g - set (m # in_progress)) < card (fst ` set g - set in_progress)"
    by (intro psubset_card_mono) simp_all
  then show "((g, m # in_progress, b), (g, in_progress, m))
      \<in> measure (\<lambda>(g, in_progress, m). card (fst ` set g - set in_progress))"
    by simp
qed

declare resolve_in.simps [simp del]

text \<open>
  Modelled from the spec: \<open>resolve(moduleId)\<close> starts the traversal with no module in
  progress.
\<close>

definition resolve :: "scope_graph \<Rightarrow> module_id \<Rightarrow> symbol list" where
  "resolve g m = resolve_in g [] m"

text \<open>
  A chain of import edges along which a symbol reaches the first module: the last module
  declares the symbol and every module after the first one exports it. It is used to
  characterise the resolved scope independently of the traversal.
\<close>

fun export_path :: "scope_graph \<Rightarrow> symbol \<Rightarrow> module_id list \<Rightarrow> bool" where
  "export_path g s [] = False"
| "export_path g s [m] = (s \<in> set (node_declared (node_of g m)))"
| "export_path g s (m # b # ms) =
     (b \<in> set (node_imports (node_of g m)) \<and> s \<in> set (node_exports (node_of g b))
      \<and> export_path g s (b # ms))"

section \<open>Auxiliary facts about the interpolation loop\<close>

lemma interpolate_loop_eq:
  "interpolate_loop strings expressions idx args =
     (max idx (length expressions),
      args @ concat (map (\<lambda>i. [literal (string_or_undefined (js_index strings i)), expressions ! i])
                      [idx..<length expressions]))"
proof (induction strings expressions idx args rule: interpolate_loop.induct)
  case (1 strings expressions idx args)
  show ?case
  proof (cases "idx < length expressions")
    case True
    then show ?thesis
      using "1.IH" [OF True]
      by (subst interpolate_loop.simps) (simp add: push_def upt_conv_Cons max_def)
  next
    case False
    then show ?thesis by (subst interpolate_loop.simps) (simp add: max_def)
  qed
qed

lemma length_concat_pairs:
  "length (concat (map (\<lambda>i. [f i, g i]) [0..<k])) = 2 * k"
  by (induction k) simp_all

lemma nth_concat_pairs:
  "i < k \<Longrightarrow> concat (map (\<lambda>i. [f i, g i]) [0..<k]) ! (2 * i) = f i
     \<and> concat (map (\<lambda>i. [f i, g i]) [0..<k]) ! (2 * i + 1) = g i"
proof (induction k)
  case 0
  then show ?case by simp
next
  case (Suc k)
  show ?case
  proof (cases "i < k")
    case True
    then show ?thesis using Suc.IH by (simp add: nth_append length_concat_pairs)
  next
    case False
    with Suc.prems have "i = k" by simp
    then show ?thesis by (simp add: nth_append length_concat_pairs)
  qed
qed

text \<open>
  The array built by the general branch, as one expression: the pairs
  \<open>strings[i], expressions[i]\<close> in order, then the last string.
\<close>

lemma interpolationArgs_general:
  assumes "\<not> (length expressions = 1 \<and> js_index strings 0 = Some '''' \<and> js_index strings 1 = Some '''')"
  shows "interpolationArgs strings expressions =
           concat (map (\<lambda>i. [literal (string_or_undefined (js_index strings i)), expressions ! i])
                     [0..<length expressions])
           @ [literal (string_or_undefined (js_index strings (length expressions)))]"
proof -
  have "interpolationArgs strings expressions =
          (case interpolate_loop strings expressions 0 [] of
             (idx, args) \<Rightarrow> push args [literal (string_or_undefined (js_index strings idx))])"
    unfolding interpolationArgs_def using assms by (rule if_not_P)
  then show ?thesis
    by (simp add: interpolate_loop_eq push_def)
qed

lemma interpolationArgs_degenerate:
  assumes "length expressions = 1" "js_index strings 0 = Some ''''" "js_index strings 1 = Some ''''"
  shows "interpolationArgs strings expressions = [expressions ! 0]"
proof -
  from assms
  have "length expressions = 1 \<and> js_index strings 0 = Some '''' \<and> js_index strings 1 = Some ''''"
    by blast
  then show ?thesis
    unfolding interpolationArgs_def push_def by (simp only: if_P append_Nil)
qed

lemma length_interpolationArgs:
  "length (interpolationArgs strings expressions) =
     (if length expressions = 1 \<and> js_index strings 0 = Some '''' \<and> js_index strings 1 = Some ''''
      then 1 else 2 * length expressions + 1)"
proof (cases "length expressions = 1 \<and> js_index strings 0 = Some '''' \<and> js_index strings 1 = Some ''''")
  case True
  then show ?thesis by (simp add: interpolationArgs_degenerate)
next
  case False
  then show ?thesis
    by (simp only: interpolationArgs_general [OF False] length_append length_concat_pairs if_False)
      simp
qed

lemma text_mapping_odd:
  "cfg_mapping TEXT_INTERPOLATE_CONFIG (Suc (2 * k)) = Inr k"
  by (simp add: TEXT_INTERPOLATE_CONFIG_def)

lemma text_constant_length:
  "length (cfg_constant TEXT_INTERPOLATE_CONFIG) = 9"
  by (simp add: TEXT_INTERPOLATE_CONFIG_def)

lemma text_variable:
  "cfg_variable TEXT_INTERPOLATE_CONFIG = Some I_textInterpolateV"
  by (simp add: TEXT_INTERPOLATE_CONFIG_def)

lemma textInterpolate_valid:
  assumes "1 \<le> length strings" "length expressions = length strings - 1"
  shows "textInterpolate strings expressions =
           callVariadicInstruction TEXT_INTERPOLATE_CONFIG [] (interpolationArgs strings expressions)"
  using assms by (auto simp: textInterpolate_def)

lemma callVariadicInstruction_text_constant:
  assumes "length args = 2 * k + 1" "k \<le> 8"
  shows "callVariadicInstruction TEXT_INTERPOLATE_CONFIG [] args =
           Inr (call (cfg_constant TEXT_INTERPOLATE_CONFIG ! k) args)"
  using assms
  by (simp add: callVariadicInstruction_def callVariadicInstructionExpr_def text_mapping_odd
      text_constant_length call_def)

lemma callVariadicInstruction_text_variable:
  assumes "length args = 2 * k + 1" "8 < k"
  shows "callVariadicInstruction TEXT_INTERPOLATE_CONFIG [] args =
           Inr (call I_textInterpolateV [literalArr args])"
  using assms
  by (simp add: callVariadicInstruction_def callVariadicInstructionExpr_def text_mapping_odd
      text_constant_length text_variable call_def)

lemma emitted_args_call:
  "emitted_args (Inr (call instruction args)) = Some args"
  by (simp add: emitted_args_def call_def createStatementOp_def toStmt_def callFn_def)

section \<open>Properties of the element-like helpers\<close>

text \<open>
  C1: the element-like helpers build the argument list of the emitted operation
  positionally: the slot first, the tag exactly for \<open>element\<close> and \<open>elementStart\<close>,
  then the pair (constant index or null, local reference index) when the local reference
  index is present, and otherwise the constant index alone when it is present. All eight
  combinations of tag, constant index and local reference index are listed, for each of
  the four helpers, both as the emitted operation (a statement that calls the helper's
  instruction) and as the argument list read back from it.
\<close>

theorem element_like_args_positional:
  "element slot tag None None =
     StatementOp (ExpressionStatement (InvokeFunctionExpr (ExternalExpr I_element)
       [LiteralExpr (NumberValue slot),
        LiteralExpr (StringValue tag)]))
   \<and> emitted_args (Inr (element slot tag None None)) =
     Some [LiteralExpr (NumberValue slot),
           LiteralExpr (StringValue tag)]
   \<and> element slot tag (Some c) None =
     StatementOp (ExpressionStatement (InvokeFunctionExpr (ExternalExpr I_element)
       [LiteralExpr (NumberValue slot),
        LiteralExpr (StringValue tag),
        LiteralExpr (NumberValue c)]))
   \<and> emitted_args (Inr (element slot tag (Some c) None)) =
     Some [LiteralExpr (NumberValue slot),
           LiteralExpr (StringValue tag),
           LiteralExpr (NumberValue c)]
   \<and> element slot tag None (Some l) =
     StatementOp (ExpressionStatement (InvokeFunctionExpr (ExternalExpr I_element)
       [LiteralExpr (NumberValue slot),
        LiteralExpr (StringValue tag),
        LiteralExpr NullValue,
        LiteralExpr (NumberValue l)]))
   \<and> emitted_args (Inr (element slot tag None (Some l))) =
     Some [LiteralExpr (NumberValue slot),
           LiteralExpr (StringValue tag),
           LiteralExpr NullValue,
           LiteralExpr (NumberValue l)]
   \<and> element slot tag (Some c) (Some l) =
     StatementOp (ExpressionStatement (InvokeFunctionExpr (ExternalExpr I_element)
       [LiteralExpr (NumberValue slot),
        LiteralExpr (StringValue tag),
        LiteralExpr (NumberValue c),
        LiteralExpr (NumberValue l)]))
   \<and> emitted_args (Inr (element slot tag (Some c) (Some l))) =
     Some [LiteralExpr (NumberValue slot),
           LiteralExpr (StringValue tag),
           LiteralExpr (NumberValue c),
           LiteralExpr (NumberValue l)]
   \<and> elementStart slot tag None None =
     StatementOp (ExpressionStatement (InvokeFunctionExpr (ExternalExpr I_elementStart)
       [LiteralExpr (NumberValue slot),
        LiteralExpr (StringValue tag)]))
   \<and> emitted_args (Inr (elementStart slot tag None None)) =
     Some [LiteralExpr (NumberValue slot),
           LiteralExpr (StringValue tag)]
   \<and> elementStart slot tag (Some c) None =
     StatementOp (ExpressionStatement (InvokeFunctionExpr (ExternalExpr I_elementStart)
       [LiteralExpr (NumberValue slot),
        LiteralExpr (StringValue tag),
        LiteralExpr (NumberValue c)]))
   \<and> emitted_args (Inr (elementStart slot tag (Some c) None)) =
     Some [LiteralExpr (NumberValue slot),
           LiteralExpr (StringValue tag),
           LiteralExpr (NumberValue c)]
   \<and> elementStart slot tag None (Some l) =
     StatementOp (ExpressionStatement (InvokeFunctionExpr (ExternalExpr I_elementStart)
       [LiteralExpr (NumberValue slot),
        LiteralExpr (StringValue tag),
        LiteralExpr NullValue,
        LiteralExpr (NumberValue l)]))
   \<and> emitted_args (Inr (elementStart slot tag None (Some l))) =
     Some [LiteralExpr (NumberValue slot),
           LiteralExpr (StringValue tag),
           LiteralExpr NullValue,
           LiteralExpr (NumberValue l)]
   \<and> elementStart slot tag (Some c) (Some l) =
     StatementOp (ExpressionStatement (InvokeFunctionExpr (ExternalExpr I_elementStart)
       [LiteralExpr (NumberValue slot),
        LiteralExpr (StringValue tag),
        LiteralExpr (NumberValue c),
        LiteralExpr (NumberValue l)]))
   \<and> emitted_args (Inr (elementStart slot tag (Some c) (Some l))) =
     Some [LiteralExpr (NumberValue slot),
           LiteralExpr (StringValue tag),
           LiteralExpr (NumberValue c),
           LiteralExpr (NumberValue l)]
   \<and> elementContainer slot None None =
     StatementOp (ExpressionStatement (InvokeFunctionExpr (ExternalExpr I_elementContainer)
       [LiteralExpr (NumberValue slot)]))
   \<and> emitted_args (Inr (elementContainer slot None None)) =
     Some [LiteralExpr (NumberValue slot)]
   \<and> elementContainer slot (Some c) None =
     StatementOp (ExpressionStatement (InvokeFunctionExpr (ExternalExpr I_elementContainer)
       [LiteralExpr (NumberValue slot),
        LiteralExpr (NumberValue c)]))
   \<and> emitted_args (Inr (elementContainer slot (Some c) None)) =
     Some [LiteralExpr (NumberValue slot),
           LiteralExpr (NumberValue c)]
   \<and> elementContainer slot None (Some l) =
     StatementOp (ExpressionStatement (InvokeFunctionExpr (ExternalExpr I_elementContainer)
       [LiteralExpr (NumberValue slot),
        LiteralExpr NullValue,
        LiteralExpr (NumberValue l)]))
   \<and> emitted_args (Inr (elementContainer slot None (Some l))) =
     Some [LiteralExpr (NumberValue slot),
           LiteralExpr NullValue,
           LiteralExpr (NumberValue l)]
   \<and> elementContainer slot (Some c) (Some l) =
     StatementOp (ExpressionStatement (InvokeFunctionExpr (ExternalExpr I_elementContainer)
       [LiteralExpr (NumberValue slot),
        LiteralExpr (NumberValue c),
        LiteralExpr (NumberValue l)]))
   \<and> emitted_args (Inr (elementContainer slot (Some c) (Some l))) =
     Some [LiteralExpr (NumberValue slot),
           LiteralExpr (NumberValue c),
           LiteralExpr (NumberValue l)]
   \<and> elementContainerStart slot None None =
     StatementOp (ExpressionStatement (InvokeFunctionExpr (ExternalExpr I_elementContainerStart)
       [LiteralExpr (NumberValue slot)]))
   \<and> emitted_args (Inr (elementContainerStart slot None None)) =
     Some [LiteralExpr (NumberValue slot)]
   \<and> elementContainerStart slot (Some c) None =
     StatementOp (ExpressionStatement (InvokeFunctionExpr (ExternalExpr I_elementContainerStart)
       [LiteralExpr (NumberValue slot),
        LiteralExpr (NumberValue c)]))
   \<and> emitted_args (Inr (elementContainerStart slot (Some c) None)) =
     Some [LiteralExpr (NumberValue slot),
           LiteralExpr (NumberValue c)]
   \<and> elementContainerStart slot None (Some l) =
     StatementOp (ExpressionStatement (InvokeFunctionExpr (ExternalExpr I_elementContainerStart)
       [LiteralExpr (NumberValue slot),
        LiteralExpr NullValue,
        LiteralExpr (NumberValue l)]))
   \<and> emitted_args (Inr (elementContainerStart slot None (Some l))) =
     Some [LiteralExpr (NumberValue slot),
           LiteralExpr NullValue,
           LiteralExpr (NumberValue l)]
   \<and> elementContainerStart slot (Some c) (Some l) =
     StatementOp (ExpressionStatement (InvokeFunctionExpr (ExternalExpr I_elementContainerStart)
       [LiteralExpr (NumberValue slot),
        LiteralExpr (NumberValue c),
        LiteralExpr (NumberValue l)]))
   \<and> emitted_args (Inr (elementContainerStart slot (Some c) (Some l))) =
     Some [LiteralExpr (NumberValue slot),
           LiteralExpr (NumberValue c),
           LiteralExpr (NumberValue l)]"
  by (simp add: element_def elementStart_def elementContainer_def elementContainerStart_def
      elementOrContainerBase_def push_def number_or_null_def emitted_args_def call_def
      createStatementOp_def toStmt_def callFn_def importExpr_def literal_def)

theorem element_like_args_positional_witness:
  "emitted_args (Inr (element 0 ''div'' None (Some 2))) =
     Some [LiteralExpr (NumberValue 0), LiteralExpr (StringValue ''div''),
           LiteralExpr NullValue, LiteralExpr (NumberValue 2)]
   \<and> element 0 ''div'' None (Some 2) =
     StatementOp (ExpressionStatement (InvokeFunctionExpr (ExternalExpr I_element)
       [LiteralExpr (NumberValue 0), LiteralExpr (StringValue ''div''),
        LiteralExpr NullValue, LiteralExpr (NumberValue 2)]))
   \<and> emitted_args (Inr (elementContainerStart 3 (Some 1) None)) =
     Some [LiteralExpr (NumberValue 3), LiteralExpr (NumberValue 1)]
   \<and> emitted_args (Inr (elementContainer 3 None None)) = Some [LiteralExpr (NumberValue 3)]"
  using element_like_args_positional [of 0 "''div''" 1 2]
    element_like_args_positional [of 3 "''div''" 1 2]
  by (simp add: emitted_args_def)

section \<open>Properties of the fixed-shape helpers\<close>

text \<open>
  C5: \<open>nextContext(steps)\<close> emits a call with no argument when \<open>steps\<close> is 1, and a call
  with exactly one literal argument equal to \<open>steps\<close> for every other value.
\<close>

theorem nextContext_args:
  "nextContext 1 = callFn (importExpr I_nextContext) []
   \<and> (steps \<noteq> 1 \<longrightarrow>
        nextContext steps = callFn (importExpr I_nextContext) [literal (NumberValue steps)])"
  by (simp add: nextContext_def)

theorem nextContext_args_witness:
  "nextContext 1 = callFn (importExpr I_nextContext) []
   \<and> nextContext 2 = callFn (importExpr I_nextContext) [literal (NumberValue 2)]
   \<and> call_args (nextContext 1) = []
   \<and> call_args (nextContext 2) = [LiteralExpr (NumberValue 2)]"
  using nextContext_args [of 2]
  by (simp add: callFn_def literal_def)

text \<open>
  C6: \<open>text(slot, initialValue)\<close> emits a call of the text instruction whose first
  argument is the slot literal, followed by the string literal of the initial value
  exactly when that value is not the empty string; for the empty string the emitted call
  has the slot as its only argument.
\<close>

theorem text_args:
  "text_op slot '''' =
     StatementOp (ExpressionStatement (InvokeFunctionExpr (ExternalExpr I_text)
       [LiteralExpr (NumberValue slot)]))
   \<and> emitted_args (Inr (text_op slot '''')) = Some [LiteralExpr (NumberValue slot)]
   \<and> (initialValue \<noteq> '''' \<longrightarrow>
        text_op slot initialValue =
          StatementOp (ExpressionStatement (InvokeFunctionExpr (ExternalExpr I_text)
            [LiteralExpr (NumberValue slot), LiteralExpr (StringValue initialValue)]))
        \<and> emitted_args (Inr (text_op slot initialValue)) =
          Some [LiteralExpr (NumberValue slot), LiteralExpr (StringValue initialValue)])"
  by (simp add: text_op_def push_def emitted_args_def call_def createStatementOp_def toStmt_def
      callFn_def importExpr_def literal_def)

theorem text_args_witness:
  "emitted_args (Inr (text_op 4 '''')) = Some [LiteralExpr (NumberValue 4)]
   \<and> emitted_args (Inr (text_op 4 ''hi'')) =
       Some [LiteralExpr (NumberValue 4), LiteralExpr (StringValue ''hi'')]
   \<and> text_op 4 ''hi'' =
       StatementOp (ExpressionStatement (InvokeFunctionExpr (ExternalExpr I_text)
         [LiteralExpr (NumberValue 4), LiteralExpr (StringValue ''hi'')]))"
  using text_args [of 4 "''hi''"]
  by (simp add: emitted_args_def)

text \<open>
  C9: \<open>advance(delta)\<close> emits a call with exactly one literal argument equal to \<open>delta\<close>
  for every \<open>delta\<close>, the value 1 included: unlike \<open>nextContext\<close>, which emits no
  argument at 1, it never leaves the argument out.
\<close>

theorem advance_args:
  "advance delta = call I_advance [literal (NumberValue delta)]
   \<and> emitted_args (Inr (advance delta)) = Some [literal (NumberValue delta)]
   \<and> emitted_args (Inr (advance 1)) = Some [literal (NumberValue 1)]
   \<and> call_args (nextContext 1) = []"
  by (simp add: advance_def emitted_args_call nextContext_def callFn_def)

theorem advance_args_witness:
  "advance 1 = call I_advance [literal (NumberValue 1)]
   \<and> advance 5 = call I_advance [literal (NumberValue 5)]"
  using advance_args [of 1] advance_args [of 5]
  by simp

section \<open>Properties of the variadic collapse\<close>

text \<open>
  C2: when the mapping of the configuration yields the logical count \<open>n\<close> for the length
  of the variadic argument list, the collapse calls the constant form at index \<open>n\<close> with
  the base arguments followed by all variadic arguments if \<open>n\<close> is below the number of
  constant forms, and otherwise, if a variable form is configured, calls it with the base
  arguments followed by one packed array of all variadic arguments. For
  \<open>textInterpolate\<close> with \<open>K\<close> expressions outside the degenerate single-expression
  case, the constant form at table index \<open>K\<close> is called for \<open>K \<le> 8\<close>, and the
  variable form for \<open>K > 8\<close>.
\<close>

theorem variadic_collapse_selects:
  "(cfg_mapping config (length interpolationArgs') = Inr n \<longrightarrow>
      n < length (cfg_constant config) \<longrightarrow>
      callVariadicInstructionExpr config baseArgs interpolationArgs' =
        Inr (callFn (importExpr (cfg_constant config ! n)) (baseArgs @ interpolationArgs')))
   \<and> (cfg_mapping config (length interpolationArgs') = Inr n \<longrightarrow>
      \<not> n < length (cfg_constant config) \<longrightarrow>
      cfg_variable config = Some v \<longrightarrow>
      callVariadicInstructionExpr config baseArgs interpolationArgs' =
        Inr (callFn (importExpr v) (baseArgs @ [literalArr interpolationArgs'])))
   \<and> cfg_constant TEXT_INTERPOLATE_CONFIG =
        [I_textInterpolate, I_textInterpolate1, I_textInterpolate2, I_textInterpolate3,
         I_textInterpolate4, I_textInterpolate5, I_textInterpolate6, I_textInterpolate7,
         I_textInterpolate8]
   \<and> (1 \<le> length strings \<longrightarrow> length expressions = length strings - 1 \<longrightarrow>
      \<not> (length expressions = 1 \<and> strings ! 0 = '''' \<and> strings ! 1 = '''') \<longrightarrow>
      length expressions \<le> 8 \<longrightarrow>
      textInterpolate strings expressions =
        Inr (call (cfg_constant TEXT_INTERPOLATE_CONFIG ! length expressions)
               (interpolationArgs strings expressions)))
   \<and> (1 \<le> length strings \<longrightarrow> length expressions = length strings - 1 \<longrightarrow>
      8 < length expressions \<longrightarrow>
      textInterpolate strings expressions =
        Inr (call I_textInterpolateV [literalArr (interpolationArgs strings expressions)]))"
proof (intro conjI impI)
  assume "cfg_mapping config (length interpolationArgs') = Inr n"
    and "n < length (cfg_constant config)"
  then show "callVariadicInstructionExpr config baseArgs interpolationArgs' =
        Inr (callFn (importExpr (cfg_constant config ! n)) (baseArgs @ interpolationArgs'))"
    by (simp add: callVariadicInstructionExpr_def)
next
  assume "cfg_mapping config (length interpolationArgs') = Inr n"
    and "\<not> n < length (cfg_constant config)"
    and "cfg_variable config = Some v"
  then show "callVariadicInstructionExpr config baseArgs interpolationArgs' =
        Inr (callFn (importExpr v) (baseArgs @ [literalArr interpolationArgs']))"
    by (simp add: callVariadicInstructionExpr_def)
next
  show "cfg_constant TEXT_INTERPOLATE_CONFIG =
        [I_textInterpolate, I_textInterpolate1, I_textInterpolate2, I_textInterpolate3,
         I_textInterpolate4, I_textInterpolate5, I_textInterpolate6, I_textInterpolate7,
         I_textInterpolate8]"
    by (simp add: TEXT_INTERPOLATE_CONFIG_def)
next
  assume shape: "1 \<le> length strings" "length expressions = length strings - 1"
    and nd: "\<not> (length expressions = 1 \<and> strings ! 0 = '''' \<and> strings ! 1 = '''')"
    and small: "length expressions \<le> 8"
  from shape nd
  have "\<not> (length expressions = 1 \<and> js_index strings 0 = Some '''' \<and> js_index strings 1 = Some '''')"
    by (auto simp: js_index_def)
  then have "length (interpolationArgs strings expressions) = 2 * length expressions + 1"
    by (simp add: length_interpolationArgs)
  then show "textInterpolate strings expressions =
        Inr (call (cfg_constant TEXT_INTERPOLATE_CONFIG ! length expressions)
               (interpolationArgs strings expressions))"
    using small by (simp add: textInterpolate_valid [OF shape] callVariadicInstruction_text_constant)
next
  assume shape: "1 \<le> length strings" "length expressions = length strings - 1"
    and large: "8 < length expressions"
  then have "length (interpolationArgs strings expressions) = 2 * length expressions + 1"
    by (simp add: length_interpolationArgs)
  then show "textInterpolate strings expressions =
        Inr (call I_textInterpolateV [literalArr (interpolationArgs strings expressions)])"
    using large by (simp add: textInterpolate_valid [OF shape] callVariadicInstruction_text_variable)
qed

theorem variadic_collapse_selects_witness:
  "callVariadicInstructionExpr TEXT_INTERPOLATE_CONFIG [ReadVarExpr ''b'']
      [literal (StringValue ''p''), ReadVarExpr ''x'', literal (StringValue ''q'')] =
     Inr (callFn (importExpr I_textInterpolate1)
            [ReadVarExpr ''b'', literal (StringValue ''p''), ReadVarExpr ''x'',
             literal (StringValue ''q'')])
   \<and> callVariadicInstructionExpr
        \<lparr> cfg_constant = [I_textInterpolate], cfg_variable = Some I_textInterpolateV,
          cfg_mapping = (\<lambda>k. Inr k) \<rparr>
        [ReadVarExpr ''b''] [ReadVarExpr ''x'', ReadVarExpr ''y''] =
     Inr (callFn (importExpr I_textInterpolateV)
            [ReadVarExpr ''b'', literalArr [ReadVarExpr ''x'', ReadVarExpr ''y'']])
   \<and> textInterpolate [''p'', ''q'', ''r''] [ReadVarExpr ''x'', ReadVarExpr ''y''] =
     Inr (call I_textInterpolate2
            [literal (StringValue ''p''), ReadVarExpr ''x'', literal (StringValue ''q''),
             ReadVarExpr ''y'', literal (StringValue ''r'')])
   \<and> textInterpolate [''a'', ''b'', ''c'', ''d'', ''e'', ''f'', ''g'', ''h'', ''i'', ''j'']
        [ReadVarExpr ''1'', ReadVarExpr ''2'', ReadVarExpr ''3'', ReadVarExpr ''4'',
         ReadVarExpr ''5'', ReadVarExpr ''6'', ReadVarExpr ''7'', ReadVarExpr ''8'',
         ReadVarExpr ''9''] =
     Inr (call I_textInterpolateV
            [literalArr
               [literal (StringValue ''a''), ReadVarExpr ''1'', literal (StringValue ''b''),
                ReadVarExpr ''2'', literal (StringValue ''c''), ReadVarExpr ''3'',
                literal (StringValue ''d''), ReadVarExpr ''4'', literal (StringValue ''e''),
                ReadVarExpr ''5'', literal (StringValue ''f''), ReadVarExpr ''6'',
                literal (StringValue ''g''), ReadVarExpr ''7'', literal (StringValue ''h''),
                ReadVarExpr ''8'', literal (StringValue ''i''), ReadVarExpr ''9'',
                literal (StringValue ''j'')]])"
  using
    variadic_collapse_selects [where config = TEXT_INTERPOLATE_CONFIG
      and interpolationArgs' = "[literal (StringValue ''p''), ReadVarExpr ''x'',
                                 literal (StringValue ''q'')]"
      and n = 1 and baseArgs = "[ReadVarExpr ''b'']"
      and strings = "[''p'', ''q'', ''r'']"
      and expressions = "[ReadVarExpr ''x'', ReadVarExpr ''y'']"]
    variadic_collapse_selects [where
      config = "\<lparr> cfg_constant = [I_textInterpolate], cfg_variable = Some I_textInterpolateV,
                 cfg_mapping = (\<lambda>k. Inr k) \<rparr>"
      and interpolationArgs' = "[ReadVarExpr ''x'', ReadVarExpr ''y'']"
      and n = 2 and baseArgs = "[ReadVarExpr ''b'']" and v = I_textInterpolateV
      and strings = "[''a'', ''b'', ''c'', ''d'', ''e'', ''f'', ''g'', ''h'', ''i'', ''j'']"
      and expressions = "[ReadVarExpr ''1'', ReadVarExpr ''2'', ReadVarExpr ''3'',
                          ReadVarExpr ''4'', ReadVarExpr ''5'', ReadVarExpr ''6'',
                          ReadVarExpr ''7'', ReadVarExpr ''8'', ReadVarExpr ''9'']"]
  by (simp add: TEXT_INTERPOLATE_CONFIG_def interpolationArgs_def interpolate_loop_eq
      js_index_def string_or_undefined_def push_def)

text \<open>
  C7: when the logical count is not below the number of constant forms and the
  configuration has no variable form, the collapse throws and emits no call.
\<close>

theorem variadic_collapse_fails_without_form:
  "cfg_mapping config (length interpolationArgs') = Inr n \<Longrightarrow>
   length (cfg_constant config) \<le> n \<Longrightarrow>
   cfg_variable config = None \<Longrightarrow>
   callVariadicInstructionExpr config baseArgs interpolationArgs' = Inl UnableToCallVariadicError
   \<and> callVariadicInstruction config baseArgs interpolationArgs' = Inl UnableToCallVariadicError"
  by (simp add: callVariadicInstruction_def callVariadicInstructionExpr_def)

theorem variadic_collapse_fails_without_form_witness:
  "cfg_mapping \<lparr> cfg_constant = [I_textInterpolate], cfg_variable = None,
                 cfg_mapping = (\<lambda>k. Inr k) \<rparr> (length [ReadVarExpr ''x'']) = Inr 1
   \<and> callVariadicInstructionExpr
        \<lparr> cfg_constant = [I_textInterpolate], cfg_variable = None, cfg_mapping = (\<lambda>k. Inr k) \<rparr>
        [] [ReadVarExpr ''x''] = Inl UnableToCallVariadicError
   \<and> callVariadicInstruction
        \<lparr> cfg_constant = [I_textInterpolate], cfg_variable = None, cfg_mapping = (\<lambda>k. Inr k) \<rparr>
        [] [ReadVarExpr ''x''] = Inl UnableToCallVariadicError"
  using variadic_collapse_fails_without_form [where
      config = "\<lparr> cfg_constant = [I_textInterpolate], cfg_variable = None,
                 cfg_mapping = (\<lambda>k. Inr k) \<rparr>"
      and interpolationArgs' = "[ReadVarExpr ''x'']" and n = 1 and baseArgs = "[]"]
  by simp

section \<open>Properties of text interpolation\<close>

text \<open>
  C4: an input whose strings and expressions together are even in number, and likewise
  any input with no string or with a number of strings other than one more than the
  number of expressions, makes \<open>textInterpolate\<close> throw its shape error; no operation is
  returned.
\<close>

theorem textInterpolate_rejects_bad_shape:
  "even (length strings + length expressions) \<or> strings = []
     \<or> length strings \<noteq> length expressions + 1 \<Longrightarrow>
   textInterpolate strings expressions = Inl ShapeOfArgsError
   \<and> emitted_args (textInterpolate strings expressions) = None"
proof -
  assume bad: "even (length strings + length expressions) \<or> strings = []
     \<or> length strings \<noteq> length expressions + 1"
  have "length strings < 1 \<or> length expressions \<noteq> length strings - 1"
  proof (rule ccontr)
    assume "\<not> (length strings < 1 \<or> length expressions \<noteq> length strings - 1)"
    then have "\<not> length strings < 1" and "length expressions = length strings - 1"
      by blast+
    then have shape: "strings \<noteq> []" "length strings = length expressions + 1"
      by auto
    then have "odd (length strings + length expressions)" by simp
    with bad shape show False by blast
  qed
  then have "textInterpolate strings expressions = Inl ShapeOfArgsError"
    unfolding textInterpolate_def by (rule if_P)
  then show ?thesis by (simp add: emitted_args_def)
qed

theorem textInterpolate_rejects_bad_shape_witness:
  "even (length [''p'', ''q''] + length [ReadVarExpr ''x'', ReadVarExpr ''y''])
   \<and> textInterpolate [''p'', ''q''] [ReadVarExpr ''x'', ReadVarExpr ''y''] = Inl ShapeOfArgsError
   \<and> emitted_args (textInterpolate [''p'', ''q''] [ReadVarExpr ''x'', ReadVarExpr ''y'']) = None
   \<and> textInterpolate [] [] = Inl ShapeOfArgsError"
  using textInterpolate_rejects_bad_shape [of "[''p'', ''q'']" "[ReadVarExpr ''x'', ReadVarExpr ''y'']"]
    textInterpolate_rejects_bad_shape [of "[]" "[]"]
  by (simp add: emitted_args_def)

text \<open>
  C10: for every input that passes the entry check of \<open>textInterpolate\<close>, the array
  handed to the collapse has odd length (1 in the degenerate case, \<open>2K + 1\<close> otherwise), so
  the mapping's odd-count error is not thrown on that path, and an operation is returned.
  For no input at all does \<open>textInterpolate\<close> end in the odd-count error.
\<close>

theorem text_mapping_odd_check_unreachable:
  "(1 \<le> length strings \<longrightarrow> length expressions = length strings - 1 \<longrightarrow>
      odd (length (interpolationArgs strings expressions))
      \<and> (length (interpolationArgs strings expressions) = 1
           \<or> length (interpolationArgs strings expressions) = 2 * length expressions + 1)
      \<and> cfg_mapping TEXT_INTERPOLATE_CONFIG (length (interpolationArgs strings expressions))
           \<noteq> Inl ExpectedOddError
      \<and> (\<exists>opn. textInterpolate strings expressions = Inr opn))
   \<and> textInterpolate strings expressions \<noteq> Inl ExpectedOddError"
proof -
  obtain k where len: "length (interpolationArgs strings expressions) = Suc (2 * k)"
    by (cases "length expressions = 1 \<and> js_index strings 0 = Some ''''
          \<and> js_index strings 1 = Some ''''")
      (auto simp: length_interpolationArgs)
  have odd_len: "odd (length (interpolationArgs strings expressions))"
    using len by simp
  have one_or: "length (interpolationArgs strings expressions) = 1
      \<or> length (interpolationArgs strings expressions) = 2 * length expressions + 1"
    by (simp add: length_interpolationArgs)
  have map_ok: "cfg_mapping TEXT_INTERPOLATE_CONFIG (length (interpolationArgs strings expressions))
      = Inr k"
    using len by (simp add: text_mapping_odd)
  have collapse: "\<exists>opn. callVariadicInstruction TEXT_INTERPOLATE_CONFIG []
      (interpolationArgs strings expressions) = Inr opn"
    by (simp add: callVariadicInstruction_def callVariadicInstructionExpr_def map_ok text_variable)
  have no_odd_error: "textInterpolate strings expressions \<noteq> Inl ExpectedOddError"
    using collapse by (auto simp: textInterpolate_def)
  have returns: "1 \<le> length strings \<Longrightarrow> length expressions = length strings - 1 \<Longrightarrow>
      \<exists>opn. textInterpolate strings expressions = Inr opn"
    using collapse by (simp add: textInterpolate_valid)
  show ?thesis
  proof (intro conjI impI)
    show "odd (length (interpolationArgs strings expressions))" by (rule odd_len)
    show "length (interpolationArgs strings expressions) = 1
      \<or> length (interpolationArgs strings expressions) = 2 * length expressions + 1"
      by (rule one_or)
    show "cfg_mapping TEXT_INTERPOLATE_CONFIG (length (interpolationArgs strings expressions))
      \<noteq> Inl ExpectedOddError"
      by (simp add: map_ok)
    show "\<exists>opn. textInterpolate strings expressions = Inr opn"
      if "1 \<le> length strings" and "length expressions = length strings - 1"
      using that by (rule returns)
    show "textInterpolate strings expressions \<noteq> Inl ExpectedOddError" by (rule no_odd_error)
  qed
qed

theorem text_mapping_odd_check_unreachable_witness:
  "length (interpolationArgs [''p'', ''q''] [ReadVarExpr ''x'']) = 3
   \<and> length (interpolationArgs ['''', ''''] [ReadVarExpr ''x'']) = 1
   \<and> cfg_mapping TEXT_INTERPOLATE_CONFIG 3 = Inr 1
   \<and> textInterpolate [''p'', ''q''] [ReadVarExpr ''x''] \<noteq> Inl ExpectedOddError"
  using text_mapping_odd_check_unreachable [of "[''p'', ''q'']" "[ReadVarExpr ''x'']"]
    text_mapping_odd_check_unreachable [of "['''', '''']" "[ReadVarExpr ''x'']"]
  by (simp add: TEXT_INTERPOLATE_CONFIG_def interpolationArgs_def interpolate_loop_eq
      js_index_def push_def)

text \<open>
  C3, as stated, fails for more than eight expressions: with nine expressions and ten
  strings the emitted call has one argument, the packed array, and not \<open>2 * 9 + 1\<close>.
\<close>

theorem textInterpolate_args_length_counterexample:
  "length [''a'', ''b'', ''c'', ''d'', ''e'', ''f'', ''g'', ''h'', ''i'', ''j''] =
     length [ReadVarExpr ''1'', ReadVarExpr ''2'', ReadVarExpr ''3'', ReadVarExpr ''4'',
             ReadVarExpr ''5'', ReadVarExpr ''6'', ReadVarExpr ''7'', ReadVarExpr ''8'',
             ReadVarExpr ''9''] + 1
   \<and> map_option length
        (emitted_args
           (textInterpolate [''a'', ''b'', ''c'', ''d'', ''e'', ''f'', ''g'', ''h'', ''i'', ''j'']
              [ReadVarExpr ''1'', ReadVarExpr ''2'', ReadVarExpr ''3'', ReadVarExpr ''4'',
               ReadVarExpr ''5'', ReadVarExpr ''6'', ReadVarExpr ''7'', ReadVarExpr ''8'',
               ReadVarExpr ''9''])) = Some 1
   \<and> (1::nat) \<noteq> 2 * 9 + 1"
proof -
  let ?S = "[''a'', ''b'', ''c'', ''d'', ''e'', ''f'', ''g'', ''h'', ''i'', ''j'']"
  let ?E = "[ReadVarExpr ''1'', ReadVarExpr ''2'', ReadVarExpr ''3'', ReadVarExpr ''4'',
             ReadVarExpr ''5'', ReadVarExpr ''6'', ReadVarExpr ''7'', ReadVarExpr ''8'',
             ReadVarExpr ''9'']"
  have len: "length (interpolationArgs ?S ?E) = 2 * 9 + 1"
    by (simp add: length_interpolationArgs)
  have "textInterpolate ?S ?E =
      callVariadicInstruction TEXT_INTERPOLATE_CONFIG [] (interpolationArgs ?S ?E)"
    by (rule textInterpolate_valid) simp_all
  also have "\<dots> = Inr (call I_textInterpolateV [literalArr (interpolationArgs ?S ?E)])"
    by (rule callVariadicInstruction_text_variable [OF len]) simp
  finally have "emitted_args (textInterpolate ?S ?E) =
      Some [literalArr (interpolationArgs ?S ?E)]"
    by (simp only: emitted_args_call)
  then show ?thesis by simp
qed

text \<open>
  C3, amended: with exactly one expression between two empty strings the emitted
  operation is a call of the first constant form with that bare expression as its only
  argument. For every other valid input with \<open>K\<close> expressions and \<open>K + 1\<close> strings the
  interpolation argument list has length \<open>2K + 1\<close> and interleaves the strings and the
  expressions in their order: \<open>strings[0], expressions[0], strings[1], ..., strings[K]\<close>.
  That list is the argument list of the emitted call when \<open>K \<le> 8\<close>; when \<open>K > 8\<close> it is
  emitted as the single packed array argument.
\<close>

theorem textInterpolate_interleaves:
  "(length expressions = 1 \<longrightarrow> length strings = 2 \<longrightarrow>
      strings ! 0 = '''' \<longrightarrow> strings ! 1 = '''' \<longrightarrow>
      textInterpolate strings expressions = Inr (call I_textInterpolate [expressions ! 0]))
   \<and> (1 \<le> length strings \<longrightarrow> length expressions = length strings - 1 \<longrightarrow>
      \<not> (length expressions = 1 \<and> strings ! 0 = '''' \<and> strings ! 1 = '''') \<longrightarrow>
        length (interpolationArgs strings expressions) = 2 * length expressions + 1
      \<and> (\<forall>i < length expressions.
            interpolationArgs strings expressions ! (2 * i) = literal (StringValue (strings ! i))
          \<and> interpolationArgs strings expressions ! (2 * i + 1) = expressions ! i)
      \<and> interpolationArgs strings expressions ! (2 * length expressions) =
            literal (StringValue (strings ! length expressions))
      \<and> (length expressions \<le> 8 \<longrightarrow>
            emitted_args (textInterpolate strings expressions) =
              Some (interpolationArgs strings expressions))
      \<and> (8 < length expressions \<longrightarrow>
            emitted_args (textInterpolate strings expressions) =
              Some [literalArr (interpolationArgs strings expressions)]))"
proof (intro conjI impI)
  assume one: "length expressions = 1" and two: "length strings = 2"
    and empty: "strings ! 0 = ''''" "strings ! 1 = ''''"
  have args: "interpolationArgs strings expressions = [expressions ! 0]"
    using one two empty by (intro interpolationArgs_degenerate) (simp_all add: js_index_def)
  have "textInterpolate strings expressions =
      callVariadicInstruction TEXT_INTERPOLATE_CONFIG [] [expressions ! 0]"
    using one two args by (simp add: textInterpolate_def)
  also have "\<dots> = Inr (call (cfg_constant TEXT_INTERPOLATE_CONFIG ! 0) [expressions ! 0])"
    by (rule callVariadicInstruction_text_constant) simp_all
  finally show "textInterpolate strings expressions = Inr (call I_textInterpolate [expressions ! 0])"
    by (simp add: TEXT_INTERPOLATE_CONFIG_def)
next
  assume shape: "1 \<le> length strings" "length expressions = length strings - 1"
    and nd: "\<not> (length expressions = 1 \<and> strings ! 0 = '''' \<and> strings ! 1 = '''')"
  let ?K = "length expressions"
  let ?pairs = "concat (map (\<lambda>i. [literal (string_or_undefined (js_index strings i)),
                                    expressions ! i]) [0..<?K])"
  from shape nd
  have nd': "\<not> (?K = 1 \<and> js_index strings 0 = Some '''' \<and> js_index strings 1 = Some '''')"
    by (auto simp: js_index_def)
  have gen: "interpolationArgs strings expressions =
      ?pairs @ [literal (string_or_undefined (js_index strings ?K))]"
    by (rule interpolationArgs_general [OF nd'])
  have len_pairs: "length ?pairs = 2 * ?K"
    by (rule length_concat_pairs)
  have in_range: "string_or_undefined (js_index strings i) = StringValue (strings ! i)"
    if "i \<le> ?K" for i
    using that shape by (simp add: js_index_def string_or_undefined_def)
  show len: "length (interpolationArgs strings expressions) = 2 * ?K + 1"
    by (simp only: gen length_append len_pairs) simp
  show "\<forall>i < ?K.
      interpolationArgs strings expressions ! (2 * i) = literal (StringValue (strings ! i))
    \<and> interpolationArgs strings expressions ! (2 * i + 1) = expressions ! i"
  proof (intro allI impI)
    fix i assume i: "i < ?K"
    have "interpolationArgs strings expressions ! (2 * i) = ?pairs ! (2 * i)"
      and "interpolationArgs strings expressions ! (2 * i + 1) = ?pairs ! (2 * i + 1)"
      using i by (simp_all only: gen nth_append len_pairs) simp_all
    moreover have "?pairs ! (2 * i) = literal (string_or_undefined (js_index strings i))
        \<and> ?pairs ! (2 * i + 1) = expressions ! i"
      by (rule nth_concat_pairs [OF i])
    ultimately show
      "interpolationArgs strings expressions ! (2 * i) = literal (StringValue (strings ! i))
       \<and> interpolationArgs strings expressions ! (2 * i + 1) = expressions ! i"
      using i by (simp add: in_range)
  qed
  show "interpolationArgs strings expressions ! (2 * ?K) =
      literal (StringValue (strings ! ?K))"
    by (simp only: gen nth_append len_pairs) (simp add: in_range)
  show "emitted_args (textInterpolate strings expressions) =
      Some (interpolationArgs strings expressions)" if "?K \<le> 8"
    using that len
    by (simp add: textInterpolate_valid [OF shape] callVariadicInstruction_text_constant
        emitted_args_call)
  show "emitted_args (textInterpolate strings expressions) =
      Some [literalArr (interpolationArgs strings expressions)]" if "8 < ?K"
    using that len
    by (simp add: textInterpolate_valid [OF shape] callVariadicInstruction_text_variable
        emitted_args_call)
qed

theorem textInterpolate_interleaves_witness:
  "textInterpolate ['''', ''''] [ReadVarExpr ''x''] = Inr (call I_textInterpolate [ReadVarExpr ''x''])
   \<and> interpolationArgs [''p'', '''', ''r''] [ReadVarExpr ''x'', ReadVarExpr ''y''] =
       [literal (StringValue ''p''), ReadVarExpr ''x'', literal (StringValue ''''),
        ReadVarExpr ''y'', literal (StringValue ''r'')]
   \<and> emitted_args (textInterpolate [''p'', '''', ''r''] [ReadVarExpr ''x'', ReadVarExpr ''y'']) =
       Some [literal (StringValue ''p''), ReadVarExpr ''x'', literal (StringValue ''''),
             ReadVarExpr ''y'', literal (StringValue ''r'')]"
  using textInterpolate_interleaves [of "[ReadVarExpr ''x'']" "['''', '''']"]
    textInterpolate_interleaves [of "[ReadVarExpr ''x'', ReadVarExpr ''y'']" "[''p'', '''', ''r'']"]
  by (simp add: interpolationArgs_def interpolate_loop_eq js_index_def string_or_undefined_def
      push_def)

section \<open>Properties of module scope resolution\<close>

lemma set_add_symbols:
  "set (add_symbols scope ss) = set scope \<union> set ss"
  by (induction scope ss rule: add_symbols.induct) auto

lemma distinct_add_symbols:
  "distinct scope \<Longrightarrow> distinct (add_symbols scope ss)"
  by (induction scope ss rule: add_symbols.induct) auto

lemma distinct_resolve_in:
  "distinct (resolve_in g in_progress m)"
  by (subst resolve_in.simps) (simp add: distinct_add_symbols)

lemma set_resolve_in:
  "set (resolve_in g in_progress m) =
     (if m \<in> set in_progress then set (node_declared (node_of g m))
      else set (node_declared (node_of g m))
           \<union> (\<Union>b \<in> set (node_imports (node_of g m)).
                set (exported_of g b (resolve_in g (m # in_progress) b))))"
  by (subst resolve_in.simps) (simp add: set_add_symbols)

lemma set_exported_of:
  "set (exported_of g b scope) = set (node_exports (node_of g b)) \<inter> set scope"
  by (auto simp: exported_of_def)

lemma resolve_in_sound:
  "s \<in> set (resolve_in g in_progress m) \<Longrightarrow> \<exists>ms. export_path g s (m # ms)"
proof (induction g in_progress m rule: resolve_in.induct)
  case (1 g in_progress m)
  show ?case
  proof (cases "s \<in> set (node_declared (node_of g m))")
    case True
    then have "export_path g s [m]" by simp
    then show ?thesis by blast
  next
    case False
    with "1.prems" have fresh: "m \<notin> set in_progress"
      and "\<exists>b \<in> set (node_imports (node_of g m)).
             s \<in> set (exported_of g b (resolve_in g (m # in_progress) b))"
      by (auto simp: set_resolve_in split: if_splits)
    then obtain b where edge: "b \<in> set (node_imports (node_of g m))"
      and exp: "s \<in> set (node_exports (node_of g b))"
      and sub: "s \<in> set (resolve_in g (m # in_progress) b)"
      by (auto simp: set_exported_of)
    from "1.IH" [OF fresh edge sub] obtain ms where "export_path g s (b # ms)" by blast
    with edge exp have "export_path g s (m # b # ms)" by simp
    then show ?thesis by blast
  qed
qed

lemma export_path_suffix:
  "export_path g s (pre @ m # post) \<Longrightarrow> export_path g s (m # post)"
proof (induction pre)
  case Nil
  then show ?case by simp
next
  case (Cons p pre)
  then show ?case by (cases pre) simp_all
qed

lemma export_path_distinct:
  "export_path g s (m # ms) \<Longrightarrow> \<exists>ms'. export_path g s (m # ms') \<and> distinct (m # ms')"
proof (induction ms arbitrary: m)
  case Nil
  then show ?case by (intro exI [of _ "[]"]) simp
next
  case (Cons b ms)
  then have edge: "b \<in> set (node_imports (node_of g m))"
    and exp: "s \<in> set (node_exports (node_of g b))"
    and rest: "export_path g s (b # ms)"
    by simp_all
  from Cons.IH [OF rest] obtain ms' where path: "export_path g s (b # ms')"
    and dist: "distinct (b # ms')"
    by blast
  show ?case
  proof (cases "m \<in> set (b # ms')")
    case False
    with edge exp path dist have "export_path g s (m # b # ms') \<and> distinct (m # b # ms')"
      by simp
    then show ?thesis by blast
  next
    case True
    then obtain pre post where split: "b # ms' = pre @ m # post"
      by (meson split_list)
    with path have "export_path g s (m # post)"
      by (simp add: export_path_suffix)
    moreover from dist split have "distinct (m # post)"
      by (metis distinct_append)
    ultimately show ?thesis by blast
  qed
qed

lemma resolve_in_complete:
  "export_path g s (m # ms) \<Longrightarrow> distinct (m # ms) \<Longrightarrow> set (m # ms) \<inter> set in_progress = {}
     \<Longrightarrow> s \<in> set (resolve_in g in_progress m)"
proof (induction ms arbitrary: m in_progress)
  case Nil
  then show ?case by (simp add: set_resolve_in)
next
  case (Cons b ms)
  from Cons.prems(1) have edge: "b \<in> set (node_imports (node_of g m))"
    and exp: "s \<in> set (node_exports (node_of g b))"
    and rest: "export_path g s (b # ms)"
    by simp_all
  from Cons.prems(2,3) have "distinct (b # ms)"
    and "set (b # ms) \<inter> set (m # in_progress) = {}"
    by auto
  with rest have "s \<in> set (resolve_in g (m # in_progress) b)"
    by (rule Cons.IH)
  with exp have "s \<in> set (exported_of g b (resolve_in g (m # in_progress) b))"
    by (simp add: set_exported_of)
  moreover from Cons.prems(3) have "m \<notin> set in_progress" by auto
  ultimately show ?case
    using edge by (auto simp: set_resolve_in)
qed

lemma mem_resolve_iff:
  "s \<in> set (resolve g m) \<longleftrightarrow> (\<exists>ms. export_path g s (m # ms))"
proof
  assume "s \<in> set (resolve g m)"
  then show "\<exists>ms. export_path g s (m # ms)"
    unfolding resolve_def by (rule resolve_in_sound)
next
  assume "\<exists>ms. export_path g s (m # ms)"
  then obtain ms where "export_path g s (m # ms)" by blast
  then obtain ms' where "export_path g s (m # ms')" and "distinct (m # ms')"
    using export_path_distinct by blast
  then show "s \<in> set (resolve g m)"
    unfolding resolve_def by (intro resolve_in_complete [where ms = ms']) simp_all
qed

lemma imports_registered:
  "b \<in> set (node_imports (node_of g m)) \<Longrightarrow> m \<in> fst ` set g"
  by (auto simp: node_of_def empty_node_def split: option.splits dest: map_of_SomeD
      intro: rev_image_eqI)

text \<open>
  Every call of the traversal is in the accessible part of its call relation: no chain of
  nested resolutions is infinite, since each one puts a registered module in progress
  that was not in progress before.
\<close>

lemma resolve_in_terminates:
  "resolve_in_dom (g, in_progress, m)"
proof (induction "card (fst ` set g - set in_progress)" arbitrary: in_progress m rule: less_induct)
  case less
  show ?case
  proof (rule resolve_in.domintros)
    fix b
    assume fresh: "m \<notin> set in_progress" and edge: "b \<in> set (node_imports (node_of g m))"
    have "m \<in> fst ` set g" using edge by (rule imports_registered)
    then have "fst ` set g - set (m # in_progress) \<subset> fst ` set g - set in_progress"
      using fresh by auto
    then have "card (fst ` set g - set (m # in_progress)) < card (fst ` set g - set in_progress)"
      by (intro psubset_card_mono) simp_all
    then show "resolve_in_dom (g, m # in_progress, b)"
      by (rule less.hyps)
  qed
qed

text \<open>
  C8: on every module graph, import cycles included, resolving a module terminates: the
  call of the resolver lies in the accessible part of its recursion, so there is no
  infinite chain of nested resolutions. The resolved scope holds exactly the module's own
  declared symbols together with the exported symbols of each imported module, where the
  exported symbols of an imported module are those of its own resolved scope that it
  re-exports, not merely its declared ones. No symbol occurs in the scope twice.
\<close>

theorem resolve_scope_of_cyclic_graph:
  "resolve_in_dom (g, [], a)
   \<and> set (resolve g a) =
       set (node_declared (node_of g a))
       \<union> (\<Union>b \<in> set (node_imports (node_of g a)). set (exported_of g b (resolve g b)))
   \<and> distinct (resolve g a)"
proof (intro conjI)
  show "resolve_in_dom (g, [], a)" by (rule resolve_in_terminates)
  show "distinct (resolve g a)" unfolding resolve_def by (rule distinct_resolve_in)
  show "set (resolve g a) =
       set (node_declared (node_of g a))
       \<union> (\<Union>b \<in> set (node_imports (node_of g a)). set (exported_of g b (resolve g b)))"
  proof (intro set_eqI iffI)
    fix s assume "s \<in> set (resolve g a)"
    then obtain ms where path: "export_path g s (a # ms)"
      by (auto simp: mem_resolve_iff)
    show "s \<in> set (node_declared (node_of g a))
       \<union> (\<Union>b \<in> set (node_imports (node_of g a)). set (exported_of g b (resolve g b)))"
    proof (cases ms)
      case Nil
      with path show ?thesis by simp
    next
      case (Cons b ms')
      with path have "b \<in> set (node_imports (node_of g a))"
        and "s \<in> set (node_exports (node_of g b))" and "export_path g s (b # ms')"
        by simp_all
      then show ?thesis
        by (auto simp: set_exported_of mem_resolve_iff)
    qed
  next
    fix s assume "s \<in> set (node_declared (node_of g a))
       \<union> (\<Union>b \<in> set (node_imports (node_of g a)). set (exported_of g b (resolve g b)))"
    then consider "s \<in> set (node_declared (node_of g a))"
      | b where "b \<in> set (node_imports (node_of g a))"
          "s \<in> set (node_exports (node_of g b))" "s \<in> set (resolve g b)"
      by (auto simp: set_exported_of)
    then show "s \<in> set (resolve g a)"
    proof cases
      case 1
      then have "export_path g s [a]" by simp
      then show ?thesis unfolding mem_resolve_iff by blast
    next
      case 2
      from 2(3) obtain ms where "export_path g s (b # ms)"
        by (auto simp: mem_resolve_iff)
      with 2(1,2) have "export_path g s (a # b # ms)" by simp
      then show ?thesis unfolding mem_resolve_iff by blast
    qed
  qed
qed

text \<open>
  The cycle of the claim: \<open>A\<close> imports \<open>B\<close> and \<open>B\<close> imports \<open>A\<close>. \<open>B\<close> declares
  \<open>b1\<close> and \<open>b2\<close> and exports \<open>b1\<close>, \<open>a1\<close> and \<open>a2\<close>; \<open>A\<close> exports only
  \<open>a1\<close>. The scope of \<open>A\<close> gets \<open>b1\<close> but not \<open>b2\<close>, and \<open>a1\<close> once; the scope of
  \<open>B\<close> gets \<open>a1\<close> but not \<open>a2\<close>.
\<close>

theorem resolve_scope_of_cyclic_graph_witness:
  "resolve
     (register_module
        (register_module [] ''A''
           \<lparr> node_declared = [''a1'', ''a2''], node_imports = [''B''], node_exports = [''a1''] \<rparr>)
        ''B''
        \<lparr> node_declared = [''b1'', ''b2''], node_imports = [''A''],
          node_exports = [''b1'', ''a1'', ''a2''] \<rparr>)
     ''A'' = [''a1'', ''a2'', ''b1'']
   \<and> resolve
     (register_module
        (register_module [] ''A''
           \<lparr> node_declared = [''a1'', ''a2''], node_imports = [''B''], node_exports = [''a1''] \<rparr>)
        ''B''
        \<lparr> node_declared = [''b1'', ''b2''], node_imports = [''A''],
          node_exports = [''b1'', ''a1'', ''a2''] \<rparr>)
     ''B'' = [''b1'', ''b2'', ''a1'']
   \<and> set [''a1'', ''a2'', ''b1''] =
       set [''a1'', ''a2''] \<union> set (filter (\<lambda>s. s \<in> set [''b1'', ''a1'', ''a2'']) [''b1'', ''b2'', ''a1''])
   \<and> distinct [''a1'', ''a2'', ''b1'']"
proof -
  let ?g = "register_module
        (register_module [] ''A''
           \<lparr> node_declared = [''a1'', ''a2''], node_imports = [''B''], node_exports = [''a1''] \<rparr>)
        ''B''
        \<lparr> node_declared = [''b1'', ''b2''], node_imports = [''A''],
          node_exports = [''b1'', ''a1'', ''a2''] \<rparr>"
  have a: "resolve ?g ''A'' = [''a1'', ''a2'', ''b1'']"
    by code_simp
  have b: "resolve ?g ''B'' = [''b1'', ''b2'', ''a1'']"
    by code_simp
  have "distinct (resolve ?g ''A'')"
    using resolve_scope_of_cyclic_graph [of ?g "''A''"] by blast
  then have d: "distinct [''a1'', ''a2'', ''b1'']"
    by (simp only: a)
  have s: "set [''a1'', ''a2'', ''b1''] =
       set [''a1'', ''a2''] \<union> set (filter (\<lambda>s. s \<in> set [''b1'', ''a1'', ''a2'']) [''b1'', ''b2'', ''a1''])"
    by auto
  show ?thesis
    by (intro conjI a b s d)
qed

end
